theory Spec2Isabelle
  imports Main
begin

unbundle bit_operations_syntax

section \<open>The OTP sample server (server.py)\<close>

text \<open>
  The model follows \<^verbatim>\<open>Server/python/server.py\<close>. Python's unbounded integers are
  \<open>int\<close>. A \<^verbatim>\<open>str\<close> is a \<open>string\<close>, read as the bytes of its UTF-8 encoding (for the
  ASCII text the server produces itself, its characters). A \<^verbatim>\<open>datetime\<close> is an \<open>int\<close>, the
  microseconds since some fixed instant, so that a \<^verbatim>\<open>timedelta\<close> is a number of
  microseconds. The global dictionary \<^verbatim>\<open>active_codes\<close> is a map that every handler takes
  and returns.
\<close>

subsection \<open>Configuration constants\<close>

definition CODE_LENGTH :: nat where
  "CODE_LENGTH = 6"

definition CODE_LIFETIME_MINUTES :: int where
  "CODE_LIFETIME_MINUTES = 5"

definition MAX_VERIFICATION_ATTEMPTS :: int where
  "MAX_VERIFICATION_ATTEMPTS = 3"

subsection \<open>Python's \<^verbatim>\<open>str(int)\<close> and \<^verbatim>\<open>str.zfill\<close>\<close>

definition digit_char :: "nat \<Rightarrow> char" where
  "digit_char d = char_of (48 + d)"

fun str_nat :: "nat \<Rightarrow> string" where
  "str_nat n = (if n < 10 then [digit_char n] else str_nat (n div 10) @ [digit_char (n mod 10)])"

declare str_nat.simps [simp del]

definition str_int :: "int \<Rightarrow> string" where
  "str_int i = (if i < 0 then CHR ''-'' # str_nat (nat (- i)) else str_nat (nat i))"

text \<open>
  \<^verbatim>\<open>s.zfill(width)\<close> returns \<open>s\<close> when it is long enough, and otherwise puts the zeros
  after a leading sign, if there is one.
\<close>

definition zfill :: "nat \<Rightarrow> string \<Rightarrow> string" where
  "zfill width s =
     (if width \<le> length s then s
      else (case s of
              [] \<Rightarrow> replicate width CHR ''0''
            | c # rest \<Rightarrow>
                if c = CHR ''+'' \<or> c = CHR ''-''
                then c # replicate (width - length s) CHR ''0'' @ rest
                else replicate (width - length s) CHR ''0'' @ s))"

subsection \<open>\<^verbatim>\<open>generate_code\<close>\<close>

definition min_val :: int where
  "min_val = 10 ^ (CODE_LENGTH - 1)"

definition max_val :: int where
  "max_val = 10 ^ CODE_LENGTH - 1"

text \<open>
  \<^verbatim>\<open>secrets.randbelow(n)\<close> returns an integer of \<open>[0, n)\<close>. The generator is a
  function of that draw; \<open>draws\<close> are the outcomes of the call
  \<^verbatim>\<open>secrets.randbelow(max_val - min_val + 1)\<close>.
\<close>

definition draws :: "int set" where
  "draws = {0 ..< max_val - min_val + 1}"

definition generate_code :: "int \<Rightarrow> string" where
  "generate_code r = (let code = min_val + r in zfill CODE_LENGTH (str_int code))"

text \<open>The number a string of decimal digits denotes, and the test for such a string.\<close>

definition is_digit :: "char \<Rightarrow> bool" where
  "is_digit c = (48 \<le> (of_char c :: nat) \<and> (of_char c :: nat) \<le> 57)"

definition decimal_value :: "string \<Rightarrow> nat" where
  "decimal_value s = foldl (\<lambda>a c. 10 * a + (of_char c - 48)) 0 s"

subsection \<open>SHA-256 (\<^verbatim>\<open>hashlib.sha256\<close>, after FIPS 180-4)\<close>

text \<open>
  A byte is a natural number below 256 and a 32-bit word one below \<open>2^32\<close>, with the
  wrap-around of the addition written out.
\<close>

definition add32 :: "nat \<Rightarrow> nat \<Rightarrow> nat" where
  "add32 x y = (x + y) mod 4294967296"

definition not32 :: "nat \<Rightarrow> nat" where
  "not32 x = 4294967295 - x"

definition rotr :: "nat \<Rightarrow> nat \<Rightarrow> nat" where
  "rotr n x = x div 2 ^ n + x mod 2 ^ n * 2 ^ (32 - n)"

definition shr :: "nat \<Rightarrow> nat \<Rightarrow> nat" where
  "shr n x = x div 2 ^ n"

definition choice :: "nat \<Rightarrow> nat \<Rightarrow> nat \<Rightarrow> nat" where
  "choice e f g = (e AND f) XOR (not32 e AND g)"

definition majority :: "nat \<Rightarrow> nat \<Rightarrow> nat \<Rightarrow> nat" where
  "majority a b c = (a AND b) XOR (a AND c) XOR (b AND c)"

definition bsig0 :: "nat \<Rightarrow> nat" where
  "bsig0 x = rotr 2 x XOR rotr 13 x XOR rotr 22 x"

definition bsig1 :: "nat \<Rightarrow> nat" where
  "bsig1 x = rotr 6 x XOR rotr 11 x XOR rotr 25 x"

definition ssig0 :: "nat \<Rightarrow> nat" where
  "ssig0 x = rotr 7 x XOR rotr 18 x XOR shr 3 x"

definition ssig1 :: "nat \<Rightarrow> nat" where
  "ssig1 x = rotr 17 x XOR rotr 19 x XOR shr 10 x"

definition K256 :: "nat list" where
  "K256 = [
   1116352408, 1899447441, 3049323471, 3921009573, 961987163, 1508970993, 2453635748, 2870763221,
   3624381080, 310598401, 607225278, 1426881987, 1925078388, 2162078206, 2614888103, 3248222580,
   3835390401, 4022224774, 264347078, 604807628, 770255983, 1249150122, 1555081692, 1996064986,
   2554220882, 2821834349, 2952996808, 3210313671, 3336571891, 3584528711, 113926993, 338241895,
   666307205, 773529912, 1294757372, 1396182291, 1695183700, 1986661051, 2177026350, 2456956037,
   2730485921, 2820302411, 3259730800, 3345764771, 3516065817, 3600352804, 4094571909, 275423344,
   430227734, 506948616, 659060556, 883997877, 958139571, 1322822218, 1537002063, 1747873779,
   1955562222, 2024104815, 2227730452, 2361852424, 2428436474, 2756734187, 3204031479, 3329325298]"

definition H256 :: "nat list" where
  "H256 = [1779033703, 3144134277, 1013904242, 2773480762,
           1359893119, 2600822924, 528734635, 1541459225]"

text \<open>
  Padding: the byte 128, zero bytes up to 56 modulo 64, and the length of the message in
  bits as eight bytes, the most significant first.
\<close>

definition be_bytes :: "nat \<Rightarrow> nat list" where
  "be_bytes n = map (\<lambda>i. n div 256 ^ i mod 256) [7, 6, 5, 4, 3, 2, 1, 0]"

definition pad :: "nat list \<Rightarrow> nat list" where
  "pad m = m @ [128] @ replicate ((119 - length m mod 64) mod 64) 0
             @ be_bytes ((8 * length m) mod 2 ^ 64)"

fun be_words :: "nat list \<Rightarrow> nat list" where
  "be_words (b0 # b1 # b2 # b3 # bs) =
     (((b0 * 256 + b1) * 256 + b2) * 256 + b3) # be_words bs"
| "be_words bs = []"

text \<open>One round on the working variables \<open>[a, b, c, d, e, f, g, h]\<close>.\<close>

fun sha_round :: "nat list \<Rightarrow> nat \<Rightarrow> nat \<Rightarrow> nat list" where
  "sha_round [a, b, c, d, e, f, g, h] k w =
     (let t1 = add32 (add32 (add32 (add32 h (bsig1 e)) (choice e f g)) k) w;
          t2 = add32 (bsig0 a) (majority a b c)
      in [add32 t1 t2, a, b, c, add32 d t1, e, f, g])"
| "sha_round v k w = v"

text \<open>
  The message schedule is kept as the window \<open>W[t], ..., W[t+15]\<close>: round \<open>t\<close> takes
  its first word, and the window moves on by
  \<open>W[t+16] = ssig1 W[t+14] + W[t+9] + ssig0 W[t+1] + W[t]\<close>.
\<close>

definition next_w :: "nat list \<Rightarrow> nat list" where
  "next_w w = tl w @ [add32 (add32 (add32 (ssig1 (w ! 14)) (w ! 9)) (ssig0 (w ! 1))) (w ! 0)]"

fun rounds :: "nat list \<Rightarrow> nat list \<Rightarrow> nat list \<Rightarrow> nat list" where
  "rounds [] w v = v"
| "rounds (k # ks) w v = rounds ks (next_w w) (sha_round v k (w ! 0))"

definition compress :: "nat list \<Rightarrow> nat list \<Rightarrow> nat list" where
  "compress hs w = map2 add32 hs (rounds K256 w hs)"

function blocks :: "nat list \<Rightarrow> nat list \<Rightarrow> nat list" where
  "blocks hs ws =
     (if length ws < 16 then hs else blocks (compress hs (take 16 ws)) (drop 16 ws))"
  by pat_completeness auto
termination
  by (relation "measure (\<lambda>(hs, ws). length ws)") auto

declare blocks.simps [simp del]

definition sha256 :: "nat list \<Rightarrow> nat list" where
  "sha256 m = blocks H256 (be_words (pad m))"

definition hex_digit :: "nat \<Rightarrow> char" where
  "hex_digit n = ''0123456789abcdef'' ! n"

definition hex_word :: "nat \<Rightarrow> string" where
  "hex_word w = map (\<lambda>i. hex_digit (w div 16 ^ i mod 16)) [7, 6, 5, 4, 3, 2, 1, 0]"

definition hexdigest :: "nat list \<Rightarrow> string" where
  "hexdigest ws = concat (map hex_word ws)"

subsection \<open>\<^verbatim>\<open>hash_code\<close> and \<^verbatim>\<open>verify_code\<close>\<close>

definition encode :: "string \<Rightarrow> nat list" where
  "encode s = map of_char s"

definition hash_code :: "string \<Rightarrow> string" where
  "hash_code code = hexdigest (sha256 (encode code))"

text \<open>
  \<^verbatim>\<open>hmac.compare_digest\<close> on two ASCII strings is their equality, computed in time that
  does not depend on where they differ; both arguments are hexadecimal digests here.
\<close>

definition compare_digest :: "string \<Rightarrow> string \<Rightarrow> bool" where
  "compare_digest a b = (a = b)"

definition verify_code :: "string \<Rightarrow> string \<Rightarrow> bool" where
  "verify_code provided_code stored_hash =
     (let provided_hash = hash_code provided_code
      in compare_digest provided_hash stored_hash)"

subsection \<open>The store and the two handlers\<close>

record otp_record =
  code_hash :: string
  expiration :: int
  attempts :: int

type_synonym store = "string \<rightharpoonup> otp_record"

definition timedelta_minutes :: "int \<Rightarrow> int" where
  "timedelta_minutes m = m * 60000000"

text \<open>
  What \<^verbatim>\<open>requests.post\<close> did: it returned a response with a status code (and a body that
  \<^verbatim>\<open>response.json()\<close> can parse or not), or it raised.
\<close>

datatype gateway_reply = Response int bool | Raised

datatype send_outcome = Sent | DeliveryError

text \<open>
  \<^verbatim>\<open>send_otp\<close>: the answers are \<^verbatim>\<open>("", 200)\<close>, here \<open>Sent\<close>, and
  \<^verbatim>\<open>("Error calling send message API. Check server logs.", 500)\<close>, here \<open>DeliveryError\<close>.
  The gateway is given the recipient and the code of the payload; \<open>r\<close> is the draw of
  the generator and \<open>now\<close> the clock when the expiration is computed, before the call.
  A status other than 200 reads the error body, which may raise; the \<^verbatim>\<open>except\<close> clause
  gives the same answer.
\<close>

definition send_otp ::
  "(string \<Rightarrow> string \<Rightarrow> gateway_reply) \<Rightarrow> int \<Rightarrow> int \<Rightarrow> string \<Rightarrow> store \<Rightarrow> send_outcome \<times> store" where
  "send_otp gateway r now phone_number active_codes =
     (let code = generate_code r;
          expiration = now + timedelta_minutes CODE_LIFETIME_MINUTES
      in case gateway phone_number code of
           Raised \<Rightarrow> (DeliveryError, active_codes)
         | Response status_code json_ok \<Rightarrow>
             if status_code \<noteq> 200
             then (if json_ok then (DeliveryError, active_codes) else (DeliveryError, active_codes))
             else (Sent, active_codes(phone_number \<mapsto>
                     \<lparr>code_hash = hash_code code, expiration = expiration, attempts = 0\<rparr>)))"

text \<open>
  The \<^verbatim>\<open>"code"\<close> of the request body, as \<^verbatim>\<open>verify_otp\<close> meets it:
  \<^item> \<open>NoCode\<close>: no JSON body, a falsy one, an object without \<^verbatim>\<open>"code"\<close>, or one whose
    \<^verbatim>\<open>"code"\<close> is falsy and not a string (\<^verbatim>\<open>null\<close>, \<^verbatim>\<open>0\<close>, \<^verbatim>\<open>false\<close>, \<^verbatim>\<open>[]\<close>, \<^verbatim>\<open>{}\<close>);
  \<^item> \<open>Code c\<close>: the string \<open>c\<close>, which may be empty;
  \<^item> \<open>BadBody\<close>: a truthy JSON value that is not an object, on which \<^verbatim>\<open>body.get\<close> raises;
  \<^item> \<open>BadCode\<close>: a truthy \<^verbatim>\<open>"code"\<close> on which \<^verbatim>\<open>hash_code\<close> raises, because it is not a
    string or has no UTF-8 encoding.
  An exception that no handler catches is answered with status 500, here \<open>ServerError\<close>.
\<close>

datatype request_body = NoCode | Code string | BadBody | BadCode

datatype outcome =
    Success
  | BadRequest
  | NotFound
  | Expired
  | IncorrectCode int
  | TooManyAttempts
  | ServerError

text \<open>
  \<^verbatim>\<open>verify_otp\<close>: \<open>now\<close> is the clock of the expiration check. The answers are
  \<^verbatim>\<open>("", 200)\<close> (\<open>Success\<close>), \<^verbatim>\<open>("No code provided.", 400)\<close> (\<open>BadRequest\<close>), 404
  (\<open>NotFound\<close>) and 401 with one of three messages (\<open>Expired\<close>, \<open>TooManyAttempts\<close>,
  \<open>IncorrectCode remaining\<close>). \<^verbatim>\<open>active_code\<close> is the dictionary stored under the
  phone number itself, so the increment is seen through both names.
\<close>

definition verify_otp :: "int \<Rightarrow> string \<Rightarrow> request_body \<Rightarrow> store \<Rightarrow> outcome \<times> store" where
  "verify_otp now phone_number body active_codes =
     (case active_codes phone_number of
        None \<Rightarrow> (NotFound, active_codes)
      | Some active_code \<Rightarrow>
          if body = BadBody then (ServerError, active_codes)
          else if body = NoCode \<or> body = Code [] then (BadRequest, active_codes)
          else if now > expiration active_code
            then (Expired, active_codes(phone_number := None))
          else if attempts active_code \<ge> MAX_VERIFICATION_ATTEMPTS
            then (TooManyAttempts, active_codes(phone_number := None))
          else (case body of
                  Code provided_code \<Rightarrow>
                    if \<not> verify_code provided_code (code_hash active_code)
                    then (let bumped = active_code\<lparr>attempts := attempts active_code + 1\<rparr>;
                              active_codes' = active_codes(phone_number \<mapsto> bumped)
                          in if attempts bumped \<ge> MAX_VERIFICATION_ATTEMPTS
                             then (TooManyAttempts, active_codes'(phone_number := None))
                             else (IncorrectCode (MAX_VERIFICATION_ATTEMPTS - attempts bumped),
                                   active_codes'))
                    else (Success, active_codes(phone_number := None))
                | _ \<Rightarrow> (ServerError, active_codes)))"

subsection \<open>Sequences of requests\<close>

datatype request =
    Issue "string \<Rightarrow> string \<Rightarrow> gateway_reply" int int string
  | Verify int string request_body

fun handle :: "request \<Rightarrow> store \<Rightarrow> store" where
  "handle (Issue gateway r now phone_number) s = snd (send_otp gateway r now phone_number s)"
| "handle (Verify now phone_number body) s = snd (verify_otp now phone_number body s)"

fun run :: "request list \<Rightarrow> store \<Rightarrow> store" where
  "run [] s = s"
| "run (q # qs) s = run qs (handle q s)"

definition reachable :: "store \<Rightarrow> bool" where
  "reachable s = (\<exists>qs. s = run qs Map.empty)"

section \<open>Notions used in the statements\<close>

text \<open>The delivery succeeded: \<^verbatim>\<open>requests.post\<close> returned, with status 200.\<close>

definition delivered :: "gateway_reply \<Rightarrow> bool" where
  "delivered reply =
     (case reply of Response status_code json_ok \<Rightarrow> status_code = 200 | Raised \<Rightarrow> False)"

text \<open>The strings of \<open>CODE_LENGTH\<close> decimal digits that do not start with a zero.\<close>

definition leading_digit_codes :: "string set" where
  "leading_digit_codes =
     {s. length s = CODE_LENGTH \<and> list_all is_digit s \<and> hd s \<noteq> CHR ''0''}"

definition attempts_in_range :: "store \<Rightarrow> bool" where
  "attempts_in_range s =
     (\<forall>phone rec. s phone = Some rec \<longrightarrow>
        0 \<le> attempts rec \<and> attempts rec < MAX_VERIFICATION_ATTEMPTS)"

text \<open>
  The path condition of the return at lines 311-316 of \<^verbatim>\<open>verify_otp\<close>, the check of the
  stored attempts before the comparison.
\<close>

definition max_attempts_precheck :: "int \<Rightarrow> string \<Rightarrow> request_body \<Rightarrow> store \<Rightarrow> bool" where
  "max_attempts_precheck now phone_number body active_codes =
     (case active_codes phone_number of
        None \<Rightarrow> False
      | Some active_code \<Rightarrow>
          body \<noteq> BadBody \<and> \<not> (body = NoCode \<or> body = Code [])
          \<and> \<not> now > expiration active_code
          \<and> attempts active_code \<ge> MAX_VERIFICATION_ATTEMPTS)"

text \<open>Concrete inputs for the examples.\<close>

definition accepting_gateway :: "string \<Rightarrow> string \<Rightarrow> gateway_reply" where
  "accepting_gateway recipient code = Response 200 True"

definition refusing_gateway :: "string \<Rightarrow> string \<Rightarrow> gateway_reply" where
  "refusing_gateway recipient code = Response 400 True"

definition demo_phone :: string where
  "demo_phone = ''15551234567''"

definition demo_record :: "int \<Rightarrow> otp_record" where
  "demo_record n = \<lparr>code_hash = hash_code ''123456'', expiration = 300000000, attempts = n\<rparr>"

section \<open>Evaluation\<close>

lemma replicate_numeral: "replicate (numeral k) x = x # replicate (pred_numeral k) x"
  by (simp add: numeral_eq_Suc)

lemmas sha_eval = hash_code_def encode_def hexdigest_def hex_word_def hex_digit_def sha256_def
  pad_def be_bytes_def compress_def K256_def H256_def blocks.simps add32_def not32_def shr_def
  rotr_def choice_def majority_def bsig0_def bsig1_def ssig0_def ssig1_def next_w_def Let_def
  replicate_numeral

text \<open>The model of SHA-256 against the test vectors of the standard.\<close>

lemma sha256_empty:
  "hash_code [] = ''e3b0c44298fc1c149afbf4c8996fb92427ae41e4649b934ca495991b7852b855''"
  by (simp add: sha_eval)

lemma sha256_abc:
  "hash_code ''abc'' = ''ba7816bf8f01cfea414140de5dae2223b00361a396177a9cb410ff61f20015ad''"
  by (simp add: sha_eval)

lemma sha256_two_blocks:
  "hash_code ''abcdbcdecdefdefgefghfghighijhijkijkljklmklmnlmnomnopnopq''
     = ''248d6a61d20638b8e5c026930c3e6039a33ce45964ff2167f6ecedd419db06c1''"
  by (simp add: sha_eval)

text \<open>The digests of two codes.\<close>

lemma hash_123456:
  "hash_code ''123456'' = ''8d969eef6ecad3c29a3a629280e686cf0c3f5d5a86aff3ca12020c923adc6c92''"
  by (simp add: sha_eval)

lemma hash_000000:
  "hash_code ''000000'' = ''91b4d142823f7d20c5f08df69122de43f35f057a988d9619f6d3138485c9a203''"
  by (simp add: sha_eval)

lemma char_of_eq_iff: "char_of (n::nat) = c \<longleftrightarrow> n mod 256 = of_char c"
  using of_char_eq_iff [of "char_of n" c, where ?'a = nat] by simp

lemmas generate_eval = generate_code_def zfill_def CODE_LENGTH_def min_val_def str_int_def
  str_nat.simps digit_char_def char_of_eq_iff

lemma gen_123456: "generate_code 23456 = ''123456''"
  by (simp add: generate_eval)

section \<open>The code generator\<close>

lemma of_char_digit_char: "d < 10 \<Longrightarrow> (of_char (digit_char d) :: nat) = 48 + d"
  by (simp add: digit_char_def)

lemma is_digit_digit_char: "d < 10 \<Longrightarrow> is_digit (digit_char d)"
  by (simp add: is_digit_def of_char_digit_char)

lemma digit_char_of_char: "is_digit c \<Longrightarrow> digit_char (of_char c - 48) = c"
  by (simp add: is_digit_def digit_char_def)

lemma str_nat_small: "n < 10 \<Longrightarrow> str_nat n = [digit_char n]"
  by (simp add: str_nat.simps)

lemma str_nat_large: "10 \<le> n \<Longrightarrow> str_nat n = str_nat (n div 10) @ [digit_char (n mod 10)]"
  by (subst str_nat.simps) simp

lemma str_nat_digits: "list_all is_digit (str_nat n)"
proof (induction n rule: str_nat.induct)
  case (1 n)
  show ?case
  proof (cases "n < 10")
    case True
    then show ?thesis by (simp add: str_nat_small is_digit_digit_char)
  next
    case False
    with 1 show ?thesis by (simp add: str_nat_large is_digit_digit_char)
  qed
qed

lemma str_nat_nonempty: "str_nat n \<noteq> []"
  by (cases "n < 10") (simp_all add: str_nat_small str_nat_large)

lemma decimal_value_snoc:
  "decimal_value (s @ [c]) = 10 * decimal_value s + (of_char c - 48)"
  by (simp add: decimal_value_def)

lemma decimal_value_str_nat: "decimal_value (str_nat n) = n"
proof (induction n rule: str_nat.induct)
  case (1 n)
  show ?case
  proof (cases "n < 10")
    case True
    then show ?thesis by (simp add: str_nat_small decimal_value_def of_char_digit_char)
  next
    case False
    with 1 show ?thesis
      by (simp add: str_nat_large decimal_value_snoc of_char_digit_char)
  qed
qed

lemma length_str_nat_upper: "0 < k \<Longrightarrow> n < 10 ^ k \<Longrightarrow> length (str_nat n) \<le> k"
proof (induction k arbitrary: n)
  case 0
  then show ?case by simp
next
  case (Suc k)
  show ?case
  proof (cases "n < 10")
    case True
    then show ?thesis by (simp add: str_nat_small)
  next
    case False
    then have "0 < k" using Suc.prems by (cases k) auto
    moreover have "n div 10 < 10 ^ k" using Suc.prems by (simp add: less_mult_imp_div_less mult.commute)
    ultimately have "length (str_nat (n div 10)) \<le> k" by (rule Suc.IH)
    with False show ?thesis by (simp add: str_nat_large)
  qed
qed

lemma length_str_nat_lower: "10 ^ k \<le> n \<Longrightarrow> k < length (str_nat n)"
proof (induction k arbitrary: n)
  case 0
  then show ?case using str_nat_nonempty [of n] by (cases "str_nat n") auto
next
  case (Suc k)
  then have big: "10 \<le> n"
    by (metis (no_types, opaque_lifting) One_nat_def le_trans mult.right_neutral mult_le_mono2 one_le_numeral one_le_power power_Suc)
  have "10 ^ k \<le> n div 10" using Suc.prems by (simp add: less_eq_div_iff_mult_less_eq mult.commute)
  then have "k < length (str_nat (n div 10))" by (rule Suc.IH)
  with big show ?case by (simp add: str_nat_large)
qed

lemma hd_str_nat: "0 < n \<Longrightarrow> hd (str_nat n) \<noteq> CHR ''0''"
proof (induction n rule: str_nat.induct)
  case (1 n)
  show ?case
  proof (cases "n < 10")
    case True
    have "(of_char (hd (str_nat n)) :: nat) = 48 + n"
      using True by (simp add: str_nat_small of_char_digit_char)
    with "1.prems" show ?thesis by auto
  next
    case False
    then have "0 < n div 10" by (simp add: div_greater_zero_iff)
    with False 1 have "hd (str_nat (n div 10)) \<noteq> CHR ''0''" by simp
    with False show ?thesis by (simp add: str_nat_large str_nat_nonempty)
  qed
qed

lemma str_nat_decimal_value:
  "s \<noteq> [] \<Longrightarrow> list_all is_digit s \<Longrightarrow> hd s \<noteq> CHR ''0'' \<Longrightarrow> str_nat (decimal_value s) = s"
proof (induction s rule: rev_induct)
  case Nil
  then show ?case by simp
next
  case (snoc c s)
  from snoc.prems have c: "is_digit c" by simp
  then have d: "(of_char c :: nat) - 48 < 10" by (auto simp: is_digit_def)
  show ?case
  proof (cases "s = []")
    case True
    with c d show ?thesis
      by (simp add: decimal_value_def str_nat_small digit_char_of_char)
  next
    case False
    with snoc.prems have "list_all is_digit s" "hd s \<noteq> CHR ''0''" by auto
    with False have ih: "str_nat (decimal_value s) = s" by (rule snoc.IH)
    have "decimal_value s \<noteq> 0"
    proof
      assume "decimal_value s = 0"
      with ih have "s = str_nat 0" by simp
      then have "hd s = CHR ''0''" by (simp add: str_nat_small digit_char_def char_of_eq_iff)
      with \<open>hd s \<noteq> CHR ''0''\<close> show False by simp
    qed
    then have big: "10 \<le> decimal_value (s @ [c])" by (simp add: decimal_value_snoc)
    have "decimal_value (s @ [c]) div 10 = decimal_value s"
      and "decimal_value (s @ [c]) mod 10 = of_char c - 48"
      using d by (simp_all add: decimal_value_snoc)
    with big ih c show ?thesis by (simp add: str_nat_large digit_char_of_char)
  qed
qed

lemma min_val_eq: "min_val = 100000"
  by (simp add: min_val_def CODE_LENGTH_def)

lemma max_val_eq: "max_val = 999999"
  by (simp add: max_val_def CODE_LENGTH_def)

lemma draws_eq: "draws = {0 ..< 900000}"
  by (simp add: draws_def min_val_eq max_val_eq)

lemma generate_code_str_nat:
  assumes "r \<in> draws"
  shows "generate_code r = str_nat (nat (100000 + r))"
    and "length (generate_code r) = 6"
proof -
  let ?n = "nat (100000 + r)"
  from assms have r: "0 \<le> r" "r < 900000" by (simp_all add: draws_eq)
  then have "10 ^ 5 \<le> ?n" "?n < 10 ^ 6" by simp_all
  then have "5 < length (str_nat ?n)" "length (str_nat ?n) \<le> 6"
    using length_str_nat_lower [of 5 ?n] length_str_nat_upper [of 6 ?n] by simp_all
  then have len: "length (str_nat ?n) = 6" by simp
  from r have "str_int (min_val + r) = str_nat ?n" by (simp add: str_int_def min_val_eq)
  with len show "generate_code r = str_nat ?n"
    by (simp add: generate_code_def zfill_def CODE_LENGTH_def Let_def)
  with len show "length (generate_code r) = 6" by simp
qed

text \<open>
  Claim C5: for every outcome of the draw, the generated code is a string of exactly
  \<open>CODE_LENGTH = 6\<close> decimal digits, and the number it denotes lies between
  \<open>10 ^ (CODE_LENGTH - 1)\<close> and \<open>10 ^ CODE_LENGTH - 1\<close>.
\<close>

theorem generate_code_range:
  assumes "r \<in> draws"
  shows "CODE_LENGTH = 6
     \<and> length (generate_code r) = CODE_LENGTH
     \<and> list_all is_digit (generate_code r)
     \<and> 10 ^ (CODE_LENGTH - 1) \<le> decimal_value (generate_code r)
     \<and> decimal_value (generate_code r) \<le> 10 ^ CODE_LENGTH - 1"
proof -
  from assms have r: "0 \<le> r" "r < 900000" by (simp_all add: draws_eq)
  have "decimal_value (generate_code r) = nat (100000 + r)"
    by (simp add: generate_code_str_nat(1) [OF assms] decimal_value_str_nat)
  moreover from r have "100000 \<le> nat (100000 + r)" "nat (100000 + r) \<le> 999999"
    by linarith+
  ultimately show ?thesis
    using generate_code_str_nat [OF assms] by (simp add: CODE_LENGTH_def str_nat_digits)
qed

theorem generate_code_range_witness:
  "(23456::int) \<in> draws \<and> generate_code 23456 = ''123456'' \<and> length (generate_code 23456) = CODE_LENGTH
     \<and> list_all is_digit (generate_code 23456)
     \<and> 10 ^ (CODE_LENGTH - 1) \<le> decimal_value (generate_code 23456)
     \<and> decimal_value (generate_code 23456) \<le> 10 ^ CODE_LENGTH - 1"
proof -
  have h: "(23456::int) \<in> draws" by (simp add: draws_eq)
  from generate_code_range [OF h] h gen_123456 show ?thesis by simp
qed

lemma generate_code_inj: "inj_on generate_code draws"
proof (rule inj_onI)
  fix r r' assume a: "r \<in> draws" "r' \<in> draws" "generate_code r = generate_code r'"
  then have "str_nat (nat (100000 + r)) = str_nat (nat (100000 + r'))"
    by (simp add: generate_code_str_nat(1))
  then have "decimal_value (str_nat (nat (100000 + r))) = decimal_value (str_nat (nat (100000 + r')))"
    by simp
  then have "nat (100000 + r) = nat (100000 + r')" by (simp only: decimal_value_str_nat)
  with a(1,2) show "r = r'" by (auto simp: draws_eq)
qed

lemma generate_code_image_subset: "generate_code ` draws \<subseteq> leading_digit_codes"
proof
  fix s assume "s \<in> generate_code ` draws"
  then obtain r where r: "r \<in> draws" "s = generate_code r" by auto
  then have "0 < nat (100000 + r)" by (simp add: draws_eq)
  then have "hd (str_nat (nat (100000 + r))) \<noteq> CHR ''0''" by (rule hd_str_nat)
  with r have "hd s \<noteq> CHR ''0''" by (simp add: generate_code_str_nat(1))
  moreover from r have "length s = 6" by (simp add: generate_code_str_nat(2))
  moreover from r have "list_all is_digit s"
    by (simp add: generate_code_str_nat(1) str_nat_digits)
  ultimately show "s \<in> leading_digit_codes"
    by (simp add: leading_digit_codes_def CODE_LENGTH_def)
qed

lemma leading_digit_codes_subset: "leading_digit_codes \<subseteq> generate_code ` draws"
proof
  fix s assume "s \<in> leading_digit_codes"
  then have s: "length s = 6" "list_all is_digit s" "hd s \<noteq> CHR ''0''"
    by (simp_all add: leading_digit_codes_def CODE_LENGTH_def)
  then have "s \<noteq> []" by auto
  with s have canon: "str_nat (decimal_value s) = s" by (simp add: str_nat_decimal_value)
  let ?n = "decimal_value s"
  have "\<not> ?n < 10 ^ 5"
  proof
    assume "?n < 10 ^ 5"
    then have "length (str_nat ?n) \<le> 5" by (intro length_str_nat_upper) simp_all
    with canon s(1) show False by simp
  qed
  moreover have "\<not> 10 ^ 6 \<le> ?n"
  proof
    assume "10 ^ 6 \<le> ?n"
    then have "6 < length (str_nat ?n)" by (rule length_str_nat_lower)
    with canon s(1) show False by simp
  qed
  ultimately have n: "100000 \<le> ?n" "?n < 1000000" by simp_all
  let ?r = "int ?n - 100000"
  from n have r: "?r \<in> draws" by (simp add: draws_eq)
  have "nat (100000 + ?r) = ?n" by simp
  with generate_code_str_nat(1) [OF r] canon have "s = generate_code ?r" by simp
  with r show "s \<in> generate_code ` draws" by (rule image_eqI [rotated])
qed

lemma generate_code_image: "generate_code ` draws = leading_digit_codes"
  using generate_code_image_subset leading_digit_codes_subset by (rule subset_antisym)

text \<open>
  Claim C6, as the code has it: the generator maps the draws one-to-one onto the strings of
  \<open>CODE_LENGTH\<close> decimal digits that do not start with a zero. So the possible codes
  are these \<open>9 * 10 ^ (CODE_LENGTH - 1)\<close> strings, each the result of exactly one draw.
\<close>

theorem generate_code_bijection:
  "bij_betw generate_code draws leading_digit_codes \<and> card draws = 9 * 10 ^ (CODE_LENGTH - 1)"
proof -
  have "bij_betw generate_code draws leading_digit_codes"
    using generate_code_inj generate_code_image by (simp add: bij_betw_def)
  moreover have "card draws = 9 * 10 ^ (CODE_LENGTH - 1)"
    by (simp add: draws_eq CODE_LENGTH_def)
  ultimately show ?thesis by simp
qed

text \<open>
  Against C6 as it is stated: \<open>''000000''\<close> is a string of \<open>CODE_LENGTH\<close> decimal
  digits, and no draw produces it.
\<close>

theorem all_zero_code_never_generated:
  "length ''000000'' = CODE_LENGTH \<and> list_all is_digit ''000000''
     \<and> ''000000'' \<notin> generate_code ` draws"
proof -
  have "''000000'' \<notin> leading_digit_codes" by (simp add: leading_digit_codes_def)
  then show ?thesis by (simp add: generate_code_image CODE_LENGTH_def is_digit_def)
qed

section \<open>The hasher and the verifier\<close>

lemma verify_code_iff: "verify_code c h \<longleftrightarrow> hash_code c = h"
  by (simp add: verify_code_def compare_digest_def)

text \<open>
  A digest is a string of 64 characters, whatever the code. There are more strings than
  digests, so two different strings have the same digest.
\<close>

lemma length_sha_round: "length v = 8 \<Longrightarrow> length (sha_round v k w) = 8"
proof -
  assume "length v = 8"
  then obtain a b c d e f g h where "v = [a, b, c, d, e, f, g, h]"
    by (auto simp: length_Suc_conv numeral_eq_Suc)
  then show ?thesis by (simp add: Let_def)
qed

lemma length_rounds: "length v = 8 \<Longrightarrow> length (rounds ks w v) = 8"
  by (induction ks arbitrary: w v) (simp_all add: length_sha_round)

lemma length_compress: "length hs = 8 \<Longrightarrow> length (compress hs w) = 8"
  by (simp add: compress_def length_rounds)

lemma length_blocks: "length hs = 8 \<Longrightarrow> length (blocks hs ws) = 8"
proof (induction hs ws rule: blocks.induct)
  case (1 hs ws)
  then show ?case
    by (subst blocks.simps) (simp add: length_compress)
qed

lemma length_hash_code: "length (hash_code c) = 64"
proof -
  have "length (sha256 (encode c)) = 8"
    by (simp add: sha256_def length_blocks H256_def)
  then obtain h0 h1 h2 h3 h4 h5 h6 h7 where "sha256 (encode c) = [h0, h1, h2, h3, h4, h5, h6, h7]"
    by (auto simp: length_Suc_conv numeral_eq_Suc)
  then show ?thesis by (simp add: hash_code_def hexdigest_def hex_word_def)
qed

lemma hash_code_collision:
  "\<exists>m n. m \<noteq> n \<and> hash_code (replicate m CHR ''0'') = hash_code (replicate n CHR ''0'')"
proof (rule ccontr)
  assume "\<not> ?thesis"
  then have "inj (\<lambda>n. hash_code (replicate n CHR ''0''))"
    by (auto simp: inj_on_def)
  moreover have "finite (range (\<lambda>n. hash_code (replicate n CHR ''0'')))"
  proof (rule finite_subset)
    show "range (\<lambda>n. hash_code (replicate n CHR ''0'')) \<subseteq> {s. set s \<subseteq> UNIV \<and> length s = 64}"
      by (auto simp: length_hash_code)
    show "finite {s :: string. set s \<subseteq> UNIV \<and> length s = 64}"
      by (rule finite_lists_length_eq) simp
  qed
  ultimately have "finite (UNIV :: nat set)" by (rule finite_imageD [rotated])
  then show False by simp
qed

section \<open>The handlers\<close>

lemma generate_code_nonempty: "generate_code r \<noteq> []"
proof -
  have "str_int i \<noteq> []" for i by (simp add: str_int_def str_nat_nonempty)
  then have "zfill n (str_int i) \<noteq> []" for n i
    by (cases "str_int i") (auto simp: zfill_def)
  then show ?thesis by (simp add: generate_code_def Let_def)
qed

lemma send_otp_delivered:
  "delivered (gateway phone (generate_code r)) \<Longrightarrow>
   send_otp gateway r now phone s =
     (Sent, s(phone \<mapsto> \<lparr>code_hash = hash_code (generate_code r),
                        expiration = now + timedelta_minutes CODE_LIFETIME_MINUTES,
                        attempts = 0\<rparr>))"
  by (auto simp: send_otp_def delivered_def Let_def split: gateway_reply.splits)

lemma verify_otp_mismatch:
  assumes "s phone = Some rec" "w \<noteq> []" "now \<le> expiration rec"
    and "attempts rec < MAX_VERIFICATION_ATTEMPTS" "\<not> verify_code w (code_hash rec)"
  shows "verify_otp now phone (Code w) s =
     (if attempts rec + 1 \<ge> MAX_VERIFICATION_ATTEMPTS
      then (TooManyAttempts, s(phone := None))
      else (IncorrectCode (MAX_VERIFICATION_ATTEMPTS - (attempts rec + 1)),
            s(phone \<mapsto> rec\<lparr>attempts := attempts rec + 1\<rparr>)))"
  using assms by (simp add: verify_otp_def Let_def)

lemma verify_otp_absent: "s phone = None \<Longrightarrow> verify_otp now phone body s = (NotFound, s)"
  by (simp add: verify_otp_def)

text \<open>
  Claim C1: \<^verbatim>\<open>verify_otp\<close> checks in this order, and the first check that applies
  decides. No record for the identifier: \<open>NotFound\<close>, the store unchanged. A missing or
  empty code: \<open>BadRequest\<close>, the store unchanged. The clock after the expiration: the
  record is deleted, \<open>Expired\<close>. The stored attempts at the maximum or above: the record
  is deleted, \<open>TooManyAttempts\<close>. Otherwise the code is compared with the stored hash:
  a match deletes the record, \<open>Success\<close>; a mismatch counts one more attempt, which
  gives \<open>TooManyAttempts\<close> and deletes the record when the new count reaches the
  maximum, and otherwise \<open>IncorrectCode\<close> with the attempts that remain.
\<close>

theorem verify_otp_order:
  "(active_codes phone = None \<longrightarrow>
      verify_otp now phone body active_codes = (NotFound, active_codes))
   \<and> (active_codes phone = Some rec \<longrightarrow>
      (body = NoCode \<or> body = Code [] \<longrightarrow>
         verify_otp now phone body active_codes = (BadRequest, active_codes))
    \<and> (body = Code c \<and> c \<noteq> [] \<and> now > expiration rec \<longrightarrow>
         verify_otp now phone body active_codes = (Expired, active_codes(phone := None)))
    \<and> (body = Code c \<and> c \<noteq> [] \<and> \<not> now > expiration rec
          \<and> attempts rec \<ge> MAX_VERIFICATION_ATTEMPTS \<longrightarrow>
         verify_otp now phone body active_codes = (TooManyAttempts, active_codes(phone := None)))
    \<and> (body = Code c \<and> c \<noteq> [] \<and> \<not> now > expiration rec
          \<and> \<not> attempts rec \<ge> MAX_VERIFICATION_ATTEMPTS
          \<and> verify_code c (code_hash rec) \<longrightarrow>
         verify_otp now phone body active_codes = (Success, active_codes(phone := None)))
    \<and> (body = Code c \<and> c \<noteq> [] \<and> \<not> now > expiration rec
          \<and> \<not> attempts rec \<ge> MAX_VERIFICATION_ATTEMPTS
          \<and> \<not> verify_code c (code_hash rec)
          \<and> attempts rec + 1 \<ge> MAX_VERIFICATION_ATTEMPTS \<longrightarrow>
         verify_otp now phone body active_codes = (TooManyAttempts, active_codes(phone := None)))
    \<and> (body = Code c \<and> c \<noteq> [] \<and> \<not> now > expiration rec
          \<and> \<not> attempts rec \<ge> MAX_VERIFICATION_ATTEMPTS
          \<and> \<not> verify_code c (code_hash rec)
          \<and> \<not> attempts rec + 1 \<ge> MAX_VERIFICATION_ATTEMPTS \<longrightarrow>
         verify_otp now phone body active_codes =
           (IncorrectCode (MAX_VERIFICATION_ATTEMPTS - (attempts rec + 1)),
            active_codes(phone \<mapsto> rec\<lparr>attempts := attempts rec + 1\<rparr>))))"
  by (auto simp: verify_otp_def Let_def)

theorem verify_otp_order_witness:
  "verify_otp 0 demo_phone (Code ''123456'') Map.empty = (NotFound, Map.empty)
   \<and> verify_otp 0 demo_phone NoCode [demo_phone \<mapsto> demo_record 0]
       = (BadRequest, [demo_phone \<mapsto> demo_record 0])
   \<and> verify_otp 300000001 demo_phone (Code ''123456'') [demo_phone \<mapsto> demo_record 0]
       = (Expired, Map.empty)
   \<and> verify_otp 0 demo_phone (Code ''123456'') [demo_phone \<mapsto> demo_record 3]
       = (TooManyAttempts, Map.empty)
   \<and> verify_otp 0 demo_phone (Code ''123456'') [demo_phone \<mapsto> demo_record 0]
       = (Success, Map.empty)
   \<and> verify_otp 0 demo_phone (Code ''000000'') [demo_phone \<mapsto> demo_record 2]
       = (TooManyAttempts, Map.empty)
   \<and> verify_otp 0 demo_phone (Code ''000000'') [demo_phone \<mapsto> demo_record 0]
       = (IncorrectCode 2, [demo_phone \<mapsto> demo_record 1])"
  using verify_otp_order [of Map.empty demo_phone 0 "Code ''123456''" "demo_record 0" "''123456''"]
    verify_otp_order [of "[demo_phone \<mapsto> demo_record 0]" demo_phone 0 NoCode
      "demo_record 0" "''123456''"]
    verify_otp_order [of "[demo_phone \<mapsto> demo_record 0]" demo_phone 300000001
      "Code ''123456''" "demo_record 0" "''123456''"]
    verify_otp_order [of "[demo_phone \<mapsto> demo_record 3]" demo_phone 0
      "Code ''123456''" "demo_record 3" "''123456''"]
    verify_otp_order [of "[demo_phone \<mapsto> demo_record 0]" demo_phone 0
      "Code ''123456''" "demo_record 0" "''123456''"]
    verify_otp_order [of "[demo_phone \<mapsto> demo_record 2]" demo_phone 0
      "Code ''000000''" "demo_record 2" "''000000''"]
    verify_otp_order [of "[demo_phone \<mapsto> demo_record 0]" demo_phone 0
      "Code ''000000''" "demo_record 0" "''000000''"]
  by (simp add: demo_record_def MAX_VERIFICATION_ATTEMPTS_def verify_code_iff
      hash_123456 hash_000000)

text \<open>
  Claim C2: \<^verbatim>\<open>send_otp\<close> changes the store only when the delivery succeeded. When it
  failed the store is the one before and the caller gets \<open>DeliveryError\<close>; when it
  succeeded the record of the identifier is replaced by the hash of the code, the
  expiration \<open>now\<close> plus the lifetime, and no attempts.
\<close>

theorem send_otp_store:
  "(\<not> delivered (gateway phone (generate_code r)) \<longrightarrow>
      send_otp gateway r now phone active_codes = (DeliveryError, active_codes))
   \<and> (delivered (gateway phone (generate_code r)) \<longrightarrow>
      send_otp gateway r now phone active_codes =
        (Sent, active_codes(phone \<mapsto>
           \<lparr>code_hash = hash_code (generate_code r),
            expiration = now + timedelta_minutes CODE_LIFETIME_MINUTES,
            attempts = 0\<rparr>)))"
  by (auto simp: send_otp_def delivered_def Let_def split: gateway_reply.splits)

theorem send_otp_store_witness:
  "send_otp refusing_gateway 23456 0 demo_phone [demo_phone \<mapsto> demo_record 1]
     = (DeliveryError, [demo_phone \<mapsto> demo_record 1])
   \<and> send_otp accepting_gateway 23456 0 demo_phone [demo_phone \<mapsto> demo_record 1]
     = (Sent, [demo_phone \<mapsto> demo_record 0])"
  using send_otp_store [of refusing_gateway demo_phone 23456 0 "[demo_phone \<mapsto> demo_record 1]"]
    send_otp_store [of accepting_gateway demo_phone 23456 0 "[demo_phone \<mapsto> demo_record 1]"]
  by (simp add: delivered_def refusing_gateway_def accepting_gateway_def demo_record_def
      gen_123456 timedelta_minutes_def CODE_LIFETIME_MINUTES_def)

text \<open>
  Claim C3: after a verification that answers \<open>Success\<close> the record of the identifier
  is gone, and verifying the same code for it again, at any time, answers \<open>NotFound\<close>.
\<close>

theorem one_time_use:
  assumes "verify_otp now phone body active_codes = (Success, active_codes')"
  shows "active_codes' phone = None
         \<and> verify_otp now' phone body active_codes' = (NotFound, active_codes')"
  using assms
  by (auto simp: verify_otp_def Let_def split: option.splits if_splits request_body.splits)

theorem one_time_use_witness:
  "verify_otp 0 demo_phone (Code ''123456'') [demo_phone \<mapsto> demo_record 0]
     = (Success, Map.empty)
   \<and> Map.empty demo_phone = (None :: otp_record option)
   \<and> verify_otp 1 demo_phone (Code ''123456'') Map.empty = (NotFound, Map.empty)"
proof -
  have h: "verify_otp 0 demo_phone (Code ''123456'') [demo_phone \<mapsto> demo_record 0]
     = (Success, Map.empty)"
    by (simp add: verify_otp_def demo_record_def verify_code_iff MAX_VERIFICATION_ATTEMPTS_def)
  from one_time_use [OF h, of 1] h show ?thesis by simp
qed

text \<open>
  Claim C4: the maximum is three attempts. After a code was issued for an identifier, three
  verifications of a wrong code, made before the code expires, answer
  \<open>IncorrectCode 2\<close>, \<open>IncorrectCode 1\<close> and \<open>TooManyAttempts\<close>; the record is then
  gone, and a fourth verification answers \<open>NotFound\<close> whatever it submits, the right
  code included.
\<close>

theorem attempt_ceiling:
  assumes "delivered (gateway phone (generate_code r))"
    and "w \<noteq> []" and "\<not> verify_code w (hash_code (generate_code r))"
    and "t1 \<le> now + timedelta_minutes CODE_LIFETIME_MINUTES"
    and "t2 \<le> now + timedelta_minutes CODE_LIFETIME_MINUTES"
    and "t3 \<le> now + timedelta_minutes CODE_LIFETIME_MINUTES"
  shows "MAX_VERIFICATION_ATTEMPTS = 3 \<and>
    (let s1 = snd (send_otp gateway r now phone s0);
         (o1, s2) = verify_otp t1 phone (Code w) s1;
         (o2, s3) = verify_otp t2 phone (Code w) s2;
         (o3, s4) = verify_otp t3 phone (Code w) s3;
         (o4, s5) = verify_otp t4 phone body s4
     in o1 = IncorrectCode 2 \<and> o2 = IncorrectCode 1 \<and> o3 = TooManyAttempts
        \<and> s4 phone = None \<and> o4 = NotFound \<and> s5 = s4)"
proof -
  let ?rec = "\<lparr>code_hash = hash_code (generate_code r),
               expiration = now + timedelta_minutes CODE_LIFETIME_MINUTES, attempts = 0\<rparr>"
  let ?s1 = "s0(phone \<mapsto> ?rec)"
  let ?s2 = "?s1(phone \<mapsto> ?rec\<lparr>attempts := 1\<rparr>)"
  let ?s3 = "?s2(phone \<mapsto> ?rec\<lparr>attempts := 2\<rparr>)"
  let ?s4 = "?s3(phone := None)"
  have m: "MAX_VERIFICATION_ATTEMPTS = 3" by (simp add: MAX_VERIFICATION_ATTEMPTS_def)
  have s1: "snd (send_otp gateway r now phone s0) = ?s1"
    using assms(1) by (simp add: send_otp_delivered)
  have v1: "verify_otp t1 phone (Code w) ?s1 = (IncorrectCode 2, ?s2)"
    using assms(2,3,4) by (subst verify_otp_mismatch [where rec = ?rec]) (simp_all add: m)
  have v2: "verify_otp t2 phone (Code w) ?s2 = (IncorrectCode 1, ?s3)"
    using assms(2,3,5)
    by (subst verify_otp_mismatch [where rec = "?rec\<lparr>attempts := 1\<rparr>"]) (simp_all add: m)
  have v3: "verify_otp t3 phone (Code w) ?s3 = (TooManyAttempts, ?s4)"
    using assms(2,3,6)
    by (subst verify_otp_mismatch [where rec = "?rec\<lparr>attempts := 2\<rparr>"]) (simp_all add: m)
  have v4: "verify_otp t4 phone body ?s4 = (NotFound, ?s4)"
    by (rule verify_otp_absent) simp
  show ?thesis
    unfolding Let_def s1 v1 prod.case v2 v3 v4 using m by simp
qed

theorem attempt_ceiling_witness:
  "delivered (accepting_gateway demo_phone (generate_code 23456))
   \<and> generate_code 23456 = ''123456''
   \<and> \<not> verify_code ''000000'' (hash_code (generate_code 23456))
   \<and> (let s1 = snd (send_otp accepting_gateway 23456 0 demo_phone Map.empty);
          (o1, s2) = verify_otp 10 demo_phone (Code ''000000'') s1;
          (o2, s3) = verify_otp 20 demo_phone (Code ''000000'') s2;
          (o3, s4) = verify_otp 30 demo_phone (Code ''000000'') s3;
          (o4, s5) = verify_otp 40 demo_phone (Code ''123456'') s4
      in o1 = IncorrectCode 2 \<and> o2 = IncorrectCode 1 \<and> o3 = TooManyAttempts
         \<and> s4 demo_phone = None \<and> o4 = NotFound \<and> s5 = s4)"
proof -
  have h1: "delivered (accepting_gateway demo_phone (generate_code 23456))"
    by (simp add: delivered_def accepting_gateway_def)
  have h2: "''000000'' \<noteq> []" by simp
  have h3: "\<not> verify_code ''000000'' (hash_code (generate_code 23456))"
    by (simp add: verify_code_iff gen_123456 hash_123456 hash_000000)
  have t: "(10::int) \<le> 0 + timedelta_minutes CODE_LIFETIME_MINUTES"
    "(20::int) \<le> 0 + timedelta_minutes CODE_LIFETIME_MINUTES"
    "(30::int) \<le> 0 + timedelta_minutes CODE_LIFETIME_MINUTES"
    by (simp_all add: timedelta_minutes_def CODE_LIFETIME_MINUTES_def)
  from attempt_ceiling [where gateway = accepting_gateway and phone = demo_phone
      and r = 23456 and w = "''000000''" and now = 0 and ?t1.0 = 10 and ?t2.0 = 20 and ?t3.0 = 30
      and ?s0.0 = Map.empty and ?t4.0 = 40 and body = "Code ''123456''", OF h1 h2 h3 t]
    h1 h3 gen_123456
  show ?thesis by simp
qed

text \<open>
  Two issues in a row for an identifier, both delivered, leave the record of the second
  one. Verifying the code of the first issue then answers \<open>Expired\<close> when the second
  code has expired; before that it answers \<open>Success\<close> when the two codes have the same
  digest and \<open>IncorrectCode 2\<close> when they do not.
\<close>

lemma verify_after_reissue:
  assumes "delivered (g1 phone (generate_code r1))"
    and "delivered (g2 phone (generate_code r2))"
  shows "fst (verify_otp t phone (Code (generate_code r1))
           (snd (send_otp g2 r2 now2 phone (snd (send_otp g1 r1 now1 phone s0))))) =
     (if t > now2 + timedelta_minutes CODE_LIFETIME_MINUTES then Expired
      else if hash_code (generate_code r1) = hash_code (generate_code r2) then Success
      else IncorrectCode 2)"
  using assms generate_code_nonempty [of r1]
  by (simp add: send_otp_delivered verify_otp_def verify_code_iff Let_def
      MAX_VERIFICATION_ATTEMPTS_def)

text \<open>The draw 23456 twice in a row issues the code 123456 twice, and it verifies.\<close>

lemma reissue_same_code:
  "(23456::int) \<in> draws
   \<and> delivered (accepting_gateway demo_phone (generate_code 23456))
   \<and> fst (verify_otp 2 demo_phone (Code (generate_code 23456))
        (snd (send_otp accepting_gateway 23456 1 demo_phone
           (snd (send_otp accepting_gateway 23456 0 demo_phone Map.empty))))) = Success"
  using generate_code_nonempty [of 23456]
  by (simp add: draws_eq delivered_def accepting_gateway_def send_otp_def verify_otp_def
      verify_code_iff Let_def MAX_VERIFICATION_ATTEMPTS_def timedelta_minutes_def
      CODE_LIFETIME_MINUTES_def)

section \<open>The store under sequences of requests\<close>

lemma attempts_in_range_handle: "attempts_in_range s \<Longrightarrow> attempts_in_range (handle q s)"
proof (cases q)
  case (Issue gateway r now phone)
  assume "attempts_in_range s"
  with Issue show ?thesis
    by (auto simp: attempts_in_range_def send_otp_def Let_def MAX_VERIFICATION_ATTEMPTS_def
        split: gateway_reply.splits if_splits)
next
  case (Verify now phone body)
  assume "attempts_in_range s"
  with Verify show ?thesis
    by (auto simp: attempts_in_range_def verify_otp_def Let_def
        split: option.splits request_body.splits if_splits)
qed

lemma attempts_in_range_run: "attempts_in_range s \<Longrightarrow> attempts_in_range (run qs s)"
  by (induction qs arbitrary: s) (simp_all add: attempts_in_range_handle)

lemma max_attempts_precheck_outcome:
  "max_attempts_precheck now phone body s \<Longrightarrow>
   verify_otp now phone body s = (TooManyAttempts, s(phone := None))"
  by (auto simp: max_attempts_precheck_def verify_otp_def split: option.splits)

text \<open>
  Claim C9: in every store that a sequence of requests reaches from the empty store, each
  record has at least zero and fewer than the maximum of attempts; so the check of the
  stored attempts before the comparison is never the branch that \<^verbatim>\<open>verify_otp\<close> takes.
\<close>

theorem attempts_invariant:
  assumes "reachable s"
  shows "(\<forall>rec. s phone = Some rec \<longrightarrow>
            0 \<le> attempts rec \<and> attempts rec < MAX_VERIFICATION_ATTEMPTS)
         \<and> \<not> max_attempts_precheck now phone body s"
proof -
  from assms obtain qs where "s = run qs Map.empty" by (auto simp: reachable_def)
  moreover have "attempts_in_range Map.empty" by (simp add: attempts_in_range_def)
  ultimately have "attempts_in_range s" by (simp add: attempts_in_range_run)
  then have bound: "0 \<le> attempts rec \<and> attempts rec < MAX_VERIFICATION_ATTEMPTS"
    if "s phone = Some rec" for rec
    using that by (simp add: attempts_in_range_def)
  have "\<not> max_attempts_precheck now phone body s"
  proof (cases "s phone")
    case None
    then show ?thesis by (simp add: max_attempts_precheck_def)
  next
    case (Some rec)
    with bound [OF Some] show ?thesis by (simp add: max_attempts_precheck_def)
  qed
  with bound show ?thesis by blast
qed

theorem attempts_invariant_witness:
  "reachable (run [Issue accepting_gateway 23456 0 demo_phone,
                   Verify 1 demo_phone (Code ''000000'')] Map.empty)
   \<and> run [Issue accepting_gateway 23456 0 demo_phone,
           Verify 1 demo_phone (Code ''000000'')] Map.empty demo_phone
       = Some (demo_record 1)
   \<and> 0 \<le> attempts (demo_record 1) \<and> attempts (demo_record 1) < MAX_VERIFICATION_ATTEMPTS
   \<and> \<not> max_attempts_precheck 2 demo_phone (Code ''000000'')
         (run [Issue accepting_gateway 23456 0 demo_phone,
               Verify 1 demo_phone (Code ''000000'')] Map.empty)"
proof -
  let ?s = "run [Issue accepting_gateway 23456 0 demo_phone,
                 Verify 1 demo_phone (Code ''000000'')] Map.empty"
  have h: "reachable ?s" unfolding reachable_def by blast
  have r: "?s demo_phone = Some (demo_record 1)"
    by (simp add: send_otp_def verify_otp_def accepting_gateway_def demo_record_def Let_def
        gen_123456 verify_code_iff hash_123456 hash_000000 MAX_VERIFICATION_ATTEMPTS_def
        timedelta_minutes_def CODE_LIFETIME_MINUTES_def)
  from attempts_invariant [OF h, of demo_phone 2 "Code ''000000''"] h r
  show ?thesis by simp
qed

text \<open>
  Claim C10: a request for one identifier leaves the entry of every other identifier as it
  was, whatever the request answers.
\<close>

theorem frame:
  assumes "x \<noteq> y"
  shows "snd (send_otp gateway r now x active_codes) y = active_codes y
         \<and> snd (verify_otp now' x body active_codes) y = active_codes y"
  using assms
  by (auto simp: send_otp_def verify_otp_def Let_def split: option.splits gateway_reply.splits request_body.splits)

theorem frame_witness:
  "demo_phone \<noteq> ''15557654321''
   \<and> snd (send_otp accepting_gateway 23456 0 demo_phone [''15557654321'' \<mapsto> demo_record 1])
        ''15557654321'' = Some (demo_record 1)
   \<and> snd (verify_otp 0 demo_phone (Code ''000000'') [''15557654321'' \<mapsto> demo_record 1])
        ''15557654321'' = Some (demo_record 1)"
proof -
  have h: "demo_phone \<noteq> ''15557654321''" by (simp add: demo_phone_def)
  from frame [OF h, of accepting_gateway 23456 0 "[''15557654321'' \<mapsto> demo_record 1]" 0
      "Code ''000000''"] h
  show ?thesis by simp
qed

end
